theory Spec2Isabelle
  imports Complex_Main
begin

section \<open>Errors\<close>

text \<open>
  The Python exceptions that the modelled notebook cells can raise.  Every function of
  the pipeline that can raise returns \<open>error + 'a\<close>, with \<open>Inl\<close> for the exception.
\<close>

datatype error =
    NameError
  | ValueError
  | ZeroDivisionError
  | AttributeError
  | KeyError
  | IndexError
  | GEOSError
  | RequestError

text \<open>Sequencing of calls that may raise: the first exception ends the computation.\<close>

definition and_then :: "error + 'a \<Rightarrow> ('a \<Rightarrow> error + 'b) \<Rightarrow> error + 'b" where
  "and_then r f = (case r of Inl e \<Rightarrow> Inl e | Inr v \<Rightarrow> f v)"

text \<open>\<open>xs[i]\<close> for an index that is not negative: IndexError beyond the end.\<close>

definition item :: "'a list \<Rightarrow> nat \<Rightarrow> error + 'a" where
  "item xs i = (if i < length xs then Inr (xs ! i) else Inl IndexError)"

section \<open>Road geometry (shapely LineString, numpy arange)\<close>

text \<open>
  Coordinates are Python floats in the source; they are modelled as exact reals, so
  every statement below is about the arithmetic the code writes down, without rounding.
  A point is the tuple \<open>(x, y)\<close> shapely returns, that is (longitude, latitude); a
  LineString is its list of vertices.
\<close>

type_synonym point = "real \<times> real"
type_synonym linestring = "point list"

definition seg_length :: "point \<Rightarrow> point \<Rightarrow> real" where
  "seg_length p q = sqrt ((fst q - fst p)\<^sup>2 + (snd q - snd p)\<^sup>2)"

text \<open>\<open>line_geometry.length\<close>: the sum of the lengths of the segments.\<close>

fun line_length :: "linestring \<Rightarrow> real" where
  "line_length (p # q # ps) = seg_length p q + line_length (q # ps)"
| "line_length ps = 0"

definition along :: "point \<Rightarrow> point \<Rightarrow> real \<Rightarrow> point" where
  "along p q t = (fst p + t * (fst q - fst p), snd p + t * (snd q - snd p))"

text \<open>
  \<open>line_geometry.interpolate(distance)\<close> for a distance that is not negative (the only
  distances \<open>densify_geometry\<close> passes): walk the segments, return the start at
  distance 0, the point at that arc length inside the segment that holds it, and the
  last vertex beyond the end.  An empty geometry has no point to return.
\<close>

fun interpolate_from :: "point \<Rightarrow> point list \<Rightarrow> real \<Rightarrow> point" where
  "interpolate_from p [] d = p"
| "interpolate_from p (q # qs) d =
     (if d \<le> 0 then p
      else if d < seg_length p q then along p q (d / seg_length p q)
      else interpolate_from q qs (d - seg_length p q))"

definition interpolate :: "linestring \<Rightarrow> real \<Rightarrow> error + point" where
  "interpolate line_geometry d =
     (case line_geometry of
        [] \<Rightarrow> Inl GEOSError
      | p # ps \<Rightarrow> Inr (interpolate_from p ps d))"

text \<open>
  \<open>np.arange(0, stop, step)\<close>: the values \<open>0, step, 2 * step, ...\<close> of the half-open
  interval from 0 to \<open>stop\<close>; numpy takes \<open>ceil(stop / step)\<close> of them (none when that
  is not positive) and raises ZeroDivisionError on a zero step.
\<close>

definition arange :: "real \<Rightarrow> real \<Rightarrow> error + real list" where
  "arange stop step =
     (if step = 0 then Inl ZeroDivisionError
      else Inr (map (\<lambda>k. real k * step) [0..<nat \<lceil>stop / step\<rceil>]))"

text \<open>
  The loop of \<open>densify_geometry\<close>: one interpolated point per distance, appended to
  \<open>xy\<close> in order.
\<close>

fun densify_loop :: "linestring \<Rightarrow> real list \<Rightarrow> point list \<Rightarrow> error + point list" where
  "densify_loop line_geometry [] xy = Inr xy"
| "densify_loop line_geometry (distance_along_old_line # ds) xy =
     (case interpolate line_geometry distance_along_old_line of
        Inl e \<Rightarrow> Inl e
      | Inr (xp, yp) \<Rightarrow> densify_loop line_geometry ds (xy @ [(xp, yp)]))"

text \<open>
  \<open>densify_geometry(line_geometry, step, crs=None)\<close>.  The line that built \<open>new_line\<close>
  is commented out in the source, so the branch for a given \<open>crs\<close> reads a name that
  was never bound and raises; only the \<open>else\<close> branch returns, and it returns \<open>xy\<close>.
\<close>

definition densify_geometry :: "linestring \<Rightarrow> real \<Rightarrow> nat option \<Rightarrow> error + point list" where
  "densify_geometry line_geometry step crs =
     (let length_m = line_length line_geometry in
      case arange length_m step of
        Inl e \<Rightarrow> Inl e
      | Inr ds \<Rightarrow>
          (case densify_loop line_geometry ds [] of
             Inl e \<Rightarrow> Inl e
           | Inr xy \<Rightarrow> if crs \<noteq> None then Inl NameError else Inr xy))"

text \<open>
  The Euclidean distance of two points is \<open>seg_length\<close>; seen as complex numbers the
  points inherit the triangle inequality.
\<close>

definition cpt :: "point \<Rightarrow> complex" where
  "cpt p = Complex (fst p) (snd p)"

section \<open>Bearings (osmnx)\<close>

text \<open>
  \<open>ox.bearing.get_bearing(origin_point, destination_point)\<close> of the osmnx library, as
  its source computes it: both arguments are read as \<open>(lat, lng)\<close> tuples in degrees,
  the initial bearing is \<open>atan2(x, y)\<close> and the result is normalised by
  \<open>(initial_bearing + 360) % 360\<close>.
\<close>

definition radians :: "real \<Rightarrow> real" where
  "radians d = d * pi / 180"

definition degrees :: "real \<Rightarrow> real" where
  "degrees r = r * 180 / pi"

text \<open>\<open>math.atan2(y, x)\<close>: the angle of the point \<open>(x, y)\<close>, between \<open>-pi\<close> and \<open>pi\<close>.\<close>

definition atan2 :: "real \<Rightarrow> real \<Rightarrow> real" where
  "atan2 y x =
     (if 0 < x then arctan (y / x)
      else if x < 0 \<and> 0 \<le> y then arctan (y / x) + pi
      else if x < 0 then arctan (y / x) - pi
      else if 0 < y then pi / 2
      else if y < 0 then - (pi / 2)
      else 0)"

text \<open>Python's \<open>a % b\<close> on floats, for a positive \<open>b\<close>.\<close>

definition float_mod :: "real \<Rightarrow> real \<Rightarrow> real" where
  "float_mod a b = a - b * of_int \<lfloor>a / b\<rfloor>"

definition get_bearing :: "point \<Rightarrow> point \<Rightarrow> real" where
  "get_bearing origin_point destination_point =
     (let lat1 = radians (fst origin_point);
          lat2 = radians (fst destination_point);
          diff_lng = radians (snd destination_point - snd origin_point);
          x = sin diff_lng * cos lat2;
          y = cos lat1 * sin lat2 - sin lat1 * cos lat2 * cos diff_lng;
          initial_bearing = degrees (atan2 x y)
      in float_mod (initial_bearing + 360) 360)"

section \<open>Road point sampler (gather_road_points)\<close>

text \<open>
  A cell of the \<open>highway\<close> or \<open>name\<close> column of the road frame: OpenStreetMap gives
  one tag, a list of tags, or nothing.
\<close>

datatype tag = Tag string | Tags "string list" | NoTag

text \<open>A row of the road frame \<open>gdf\<close>; a null geometry is \<open>None\<close>.\<close>

record road =
  geometry :: "linestring option"
  highway :: tag
  name :: tag
  length_col :: real

text \<open>The five lists \<open>gather_road_points\<close> fills, which become the columns of its frame.\<close>

record columns =
  road_names :: "tag list"
  lons :: "real list"
  lats :: "real list"
  road_lengths :: "real list"
  bearings :: "real list"

text \<open>
  The row filter \<open>~(gdf["geometry"].isna()) & ~(gdf["highway"] == "service")\<close>: the
  comparison is elementwise, so only the single tag \<open>service\<close> is equal to it.
\<close>

definition retained :: "road \<Rightarrow> bool" where
  "retained rrow = (\<not> (geometry rrow = None) \<and> \<not> (highway rrow = Tag ''service''))"

text \<open>
  The inner loop \<open>for x in range(0, len(densified_points))\<close>: at \<open>x = 0\<close> the call is
  \<open>get_bearing(densified_points[x+1], densified_points[x])\<close>, elsewhere
  \<open>get_bearing(densified_points[x], densified_points[x-1])\<close>; each bearing is appended.
\<close>

fun bearings_loop :: "point list \<Rightarrow> nat list \<Rightarrow> real list \<Rightarrow> error + real list" where
  "bearings_loop densified_points [] bs = Inr bs"
| "bearings_loop densified_points (x # xs) bs =
     and_then
       (if x = 0 then
          and_then (item densified_points (x + 1)) (\<lambda>a.
          and_then (item densified_points x) (\<lambda>b. Inr (get_bearing a b)))
        else
          and_then (item densified_points x) (\<lambda>a.
          and_then (item densified_points (x - 1)) (\<lambda>b. Inr (get_bearing a b))))
       (\<lambda>bearing. bearings_loop densified_points xs (bs @ [bearing]))"

text \<open>
  The body of the loop over the retained rows.  \<open>rrow["geometry"]\<close> is a LineString
  there; on \<open>None\<close> the attribute read in \<open>densify_geometry\<close> would raise.
\<close>

definition gather_row :: "road \<Rightarrow> columns \<Rightarrow> error + columns" where
  "gather_row rrow st =
     (case geometry rrow of
        None \<Rightarrow> Inl AttributeError
      | Some g \<Rightarrow>
          and_then (densify_geometry g 0.0002 None) (\<lambda>densified_points.
            if length densified_points > 1 then
              and_then
                (bearings_loop densified_points [0..<length densified_points] (bearings st))
                (\<lambda>bs. Inr \<lparr>road_names = road_names st @ map (\<lambda>x. name rrow) densified_points,
                            lons = lons st @ map (\<lambda>x. fst x) densified_points,
                            lats = lats st @ map (\<lambda>x. snd x) densified_points,
                            road_lengths =
                              road_lengths st @ map (\<lambda>x. length_col rrow) densified_points,
                            bearings = bs\<rparr>)
            else Inr st))"

fun gather_loop :: "road list \<Rightarrow> columns \<Rightarrow> error + columns" where
  "gather_loop [] st = Inr st"
| "gather_loop (rrow # rest) st = and_then (gather_row rrow st) (gather_loop rest)"

text \<open>\<open>pd.DataFrame.from_dict\<close> refuses columns of different lengths.\<close>

definition from_dict :: "columns \<Rightarrow> error + columns" where
  "from_dict st =
     (if length (lons st) = length (road_names st)
         \<and> length (lats st) = length (road_names st)
         \<and> length (road_lengths st) = length (road_names st)
         \<and> length (bearings st) = length (road_names st)
      then Inr st else Inl ValueError)"

definition no_columns :: columns where
  "no_columns = \<lparr>road_names = [], lons = [], lats = [], road_lengths = [], bearings = []\<rparr>"

definition gather_road_points :: "road list \<Rightarrow> error + columns" where
  "gather_road_points gdf =
     and_then (gather_loop (filter retained gdf) no_columns) from_dict"

text \<open>
  The bearing the inner loop computes at index \<open>x\<close> of the densified points.
\<close>

definition bearing_of :: "point list \<Rightarrow> nat \<Rightarrow> real" where
  "bearing_of dp x =
     (if x = 0 then get_bearing (dp ! 1) (dp ! 0) else get_bearing (dp ! x) (dp ! (x - 1)))"

text \<open>The columns have one length: what \<open>from_dict\<close> asks for.\<close>

definition aligned :: "columns \<Rightarrow> bool" where
  "aligned st =
     (length (lons st) = length (road_names st)
      \<and> length (lats st) = length (road_names st)
      \<and> length (road_lengths st) = length (road_names st)
      \<and> length (bearings st) = length (road_names st))"

section \<open>Street imagery fetcher\<close>

subsection \<open>The google_streetview client\<close>

text \<open>The dictionary of request parameters \<open>gather_google_streetview_meta\<close> builds.\<close>

record param_dict =
  size_px :: string
  location :: string
  heading :: string
  key :: string

text \<open>
  A \<open>google_streetview.api.results\<close> object: the parameters it was built from, one
  image link and one metadata dictionary per parameter dictionary.
\<close>

record results =
  params :: "param_dict list"
  links :: "string list"
  metadata :: "(string \<rightharpoonup> string) list"

fun collect :: "(error + 'a) list \<Rightarrow> error + 'a list" where
  "collect [] = Inr []"
| "collect (r # rs) = and_then r (\<lambda>v. and_then (collect rs) (\<lambda>vs. Inr (v # vs)))"

text \<open>
  The constructor \<open>google_streetview.api.results(params)\<close> of the library keeps the
  parameters, builds the links and requests the metadata of each; the request is the
  parameter \<open>lookup\<close> (it may raise), the link of a parameter dictionary is \<open>link\<close>.
\<close>

definition api_results ::
  "(param_dict \<Rightarrow> error + (string \<rightharpoonup> string)) \<Rightarrow> (param_dict \<Rightarrow> string) \<Rightarrow>
   param_dict list \<Rightarrow> error + results" where
  "api_results lookup link ps =
     and_then (collect (map lookup ps))
       (\<lambda>ms. Inr \<lparr>params = ps, links = map link ps, metadata = ms\<rparr>)"

subsection \<open>gather_google_streetview_meta\<close>

text \<open>
  A cell of the column \<open>google_streetview_meta\<close>: the function returns the results
  object when the status is \<open>OK\<close>, falls off its end (\<open>None\<close>) for another status, and
  returns \<open>pd.NA\<close> from its bare \<open>except\<close>.
\<close>

datatype meta_cell = PyNone | PdNA | Results results

text \<open>
  \<open>"{lat},{lon}".format(lat=lat, lon=lon)\<close> and \<open>str(bearing)\<close> format floats; what
  Python prints for a float is the parameter \<open>str_float\<close>.  \<open>point_params\<close> is the
  dictionary the function puts into its list \<open>params\<close>.
\<close>

definition point_params ::
  "(real \<Rightarrow> string) \<Rightarrow> real \<Rightarrow> real \<Rightarrow> real \<Rightarrow> string \<Rightarrow> param_dict" where
  "point_params str_float lat lon bearing creds =
     \<lparr>size_px = ''640x640'',
      location = str_float lat @ '','' @ str_float lon,
      heading = str_float bearing,
      key = creds\<rparr>"

definition gather_google_streetview_meta ::
  "(real \<Rightarrow> string) \<Rightarrow> (param_dict \<Rightarrow> error + (string \<rightharpoonup> string)) \<Rightarrow>
   (param_dict \<Rightarrow> string) \<Rightarrow> real \<Rightarrow> real \<Rightarrow> real \<Rightarrow> string \<Rightarrow> meta_cell" where
  "gather_google_streetview_meta str_float lookup link lat lon bearing creds =
     (let ps = [point_params str_float lat lon bearing creds]
      in case api_results lookup link ps of
           Inl e \<Rightarrow> PdNA
         | Inr res \<Rightarrow>
             (case item (metadata res) 0 of
                Inl e \<Rightarrow> PdNA
              | Inr m \<Rightarrow>
                  (case m ''status'' of
                     None \<Rightarrow> PdNA
                   | Some status \<Rightarrow> if status = ''OK'' then Results res else PyNone)))"

subsection \<open>download_google_streetview_image\<close>

text \<open>
  The files on disk (path to content) and the image requests made so far
  (\<open>requests.get(url)\<close>, in order).
\<close>

record world =
  files :: "string \<rightharpoonup> string"
  requested :: "string list"

definition replace_comma :: "string \<Rightarrow> string" where
  "replace_comma s = map (\<lambda>c. if c = CHR '','' then CHR ''_'' else c) s"

text \<open>The path \<open>"{}/{}".format(data_dir, filename)\<close> of the image of a parameter dictionary.\<close>

definition image_filepath :: "param_dict \<Rightarrow> string \<Rightarrow> string" where
  "image_filepath p data_dir =
     (let filename = replace_comma (location p) @ ''_'' @ heading p @ ''.jpg''
      in data_dir @ ''/'' @ filename)"

text \<open>
  \<open>download_google_streetview_image(google_streetview_api_results, data_dir)\<close>.  The
  argument is whatever the cell holds: \<open>None\<close> and \<open>pd.NA\<close> have no attribute
  \<open>metadata\<close>.  \<open>http_get\<close> is \<open>requests.get(url).content\<close>, which may raise.
\<close>

definition download_google_streetview_image ::
  "(string \<Rightarrow> error + string) \<Rightarrow> meta_cell \<Rightarrow> string \<Rightarrow> world \<Rightarrow>
   (error + string option) \<times> world" where
  "download_google_streetview_image http_get google_streetview_api_results data_dir w =
     (case google_streetview_api_results of
        PyNone \<Rightarrow> (Inl AttributeError, w)
      | PdNA \<Rightarrow> (Inl AttributeError, w)
      | Results res \<Rightarrow>
          (case item (metadata res) 0 of
             Inl e \<Rightarrow> (Inl e, w)
           | Inr m \<Rightarrow>
               (case m ''status'' of
                  None \<Rightarrow> (Inl KeyError, w)
                | Some status \<Rightarrow>
                    if status \<noteq> ''OK'' then (Inr None, w)
                    else
                      (case item (links res) 0 of
                         Inl e \<Rightarrow> (Inl e, w)
                       | Inr url \<Rightarrow>
                           (case item (params res) 0 of
                              Inl e \<Rightarrow> (Inl e, w)
                            | Inr p \<Rightarrow>
                                (let filepath = image_filepath p data_dir
                                 in if \<not> (filepath \<in> dom (files w)) then
                                      (case http_get url of
                                         Inl e \<Rightarrow>
                                           (Inl e, w\<lparr>requested := requested w @ [url]\<rparr>)
                                       | Inr img_data \<Rightarrow>
                                           (Inr (Some filepath),
                                            w\<lparr>files := (files w)(filepath \<mapsto> img_data),
                                              requested := requested w @ [url]\<rparr>))
                                    else (Inr (Some filepath), w)))))))"

subsection \<open>The two passes over the frame\<close>

text \<open>A row of the sample point frame the sampler exported.\<close>

record sample_row =
  road_name :: tag
  lon :: real
  lat :: real
  road_length :: real
  bearing :: real

definition meta_column ::
  "(real \<Rightarrow> string) \<Rightarrow> (param_dict \<Rightarrow> error + (string \<rightharpoonup> string)) \<Rightarrow>
   (param_dict \<Rightarrow> string) \<Rightarrow> string \<Rightarrow> sample_row list \<Rightarrow> meta_cell list" where
  "meta_column str_float lookup link creds df =
     map (\<lambda>row. gather_google_streetview_meta str_float lookup link
                  (lat row) (lon row) (bearing row) creds)
       df"

text \<open>
  The lambda of the second \<open>df.apply\<close>:
  \<open>download_google_streetview_image(meta, data_dir) if meta != None else None\<close>.
  Only \<open>None\<close> is equal to \<open>None\<close>; \<open>pd.NA\<close> and a results object are not.
\<close>

definition image_cell ::
  "(string \<Rightarrow> error + string) \<Rightarrow> meta_cell \<Rightarrow> string \<Rightarrow> world \<Rightarrow>
   (error + string option) \<times> world" where
  "image_cell http_get meta data_dir w =
     (if meta \<noteq> PyNone then download_google_streetview_image http_get meta data_dir w
      else (Inr None, w))"

fun image_column ::
  "(string \<Rightarrow> error + string) \<Rightarrow> meta_cell list \<Rightarrow> string \<Rightarrow> world \<Rightarrow>
   (error + string option list) \<times> world" where
  "image_column http_get [] data_dir w = (Inr [], w)"
| "image_column http_get (meta # metas) data_dir w =
     (case image_cell http_get meta data_dir w of
        (Inl e, w1) \<Rightarrow> (Inl e, w1)
      | (Inr img, w1) \<Rightarrow>
          (case image_column http_get metas data_dir w1 of
             (Inl e, w2) \<Rightarrow> (Inl e, w2)
           | (Inr imgs, w2) \<Rightarrow> (Inr (img # imgs), w2)))"

text \<open>
  The stage: the frame is cut to its first 100 rows, the metadata of every row is
  looked up, then the images are fetched row by row.  A run of the stage looks the
  metadata up again, whatever is on disk.
\<close>

definition fetch_stage ::
  "(real \<Rightarrow> string) \<Rightarrow> (param_dict \<Rightarrow> error + (string \<rightharpoonup> string)) \<Rightarrow>
   (param_dict \<Rightarrow> string) \<Rightarrow> (string \<Rightarrow> error + string) \<Rightarrow> string \<Rightarrow> string \<Rightarrow>
   sample_row list \<Rightarrow> world \<Rightarrow> (error + string option list) \<times> world" where
  "fetch_stage str_float lookup link http_get creds data_dir df w =
     image_column http_get (meta_column str_float lookup link creds (take 100 df)) data_dir w"

text \<open>The parameters of the request of a row.\<close>

definition row_params :: "(real \<Rightarrow> string) \<Rightarrow> string \<Rightarrow> sample_row \<Rightarrow> param_dict" where
  "row_params str_float creds row =
     point_params str_float (lat row) (lon row) (bearing row) creds"

subsection \<open>A decimal formatter for the examples\<close>

text \<open>
  The stage takes Python's formatting of a float as the parameter \<open>str_float\<close>.  The
  examples below need one concrete formatter: \<open>decimal_str\<close> prints the sign, the
  integer part, a point and the fractional digits of the decimal expansion, stopping
  at the last digit that is not zero and after 17 digits at the latest.  It is not
  Python's formatting in general (Python switches to exponent notation below
  \<open>1e-4\<close> and from \<open>1e16\<close>, and prints as many digits as the float needs); it prints
  what Python prints for the values of the examples, and no theorem about every point
  depends on it.
\<close>

definition digit_char :: "nat \<Rightarrow> char" where
  "digit_char d = ''0123456789'' ! d"

fun nat_digits :: "nat \<Rightarrow> string" where
  "nat_digits n =
     (if n < 10 then [digit_char n] else nat_digits (n div 10) @ [digit_char (n mod 10)])"

declare nat_digits.simps [simp del]

fun frac_digits :: "nat \<Rightarrow> real \<Rightarrow> string" where
  "frac_digits 0 x = []"
| "frac_digits (Suc n) x =
     (let d = nat \<lfloor>x * 10\<rfloor>; r = x * 10 - real d
      in digit_char d # (if r = 0 then [] else frac_digits n r))"

definition decimal_str :: "real \<Rightarrow> string" where
  "decimal_str x =
     (if x < 0 then ''-'' else []) @ nat_digits (nat \<lfloor>\<bar>x\<bar>\<rfloor>) @ ''.''
       @ frac_digits 17 (\<bar>x\<bar> - of_int \<lfloor>\<bar>x\<bar>\<rfloor>)"


subsection \<open>Rounding, as the specification words it\<close>

text \<open>
  The specification speaks of the rounded latitude and longitude.  No function of the
  stage rounds; \<open>spec_rounded n x\<close> follows the specification's word, \<open>x\<close> rounded to
  \<open>n\<close> decimal places, to compare the file name of the code with.
\<close>

definition spec_rounded :: "nat \<Rightarrow> real \<Rightarrow> real" where
  "spec_rounded n x = of_int (round (x * 10 ^ n)) / 10 ^ n"

section \<open>Signage classifier\<close>

text \<open>
  A row of the frame the prediction stage reads, and a row of the frame after the
  \<open>apply\<close>: the two prediction labels are missing on the rows the lambda returned as
  they were.
\<close>

record image_row = sample_row +
  google_streetview_image :: "string option"

record prediction_row = image_row +
  schoolsign_prediction :: "string option"
  schoolsign_prediction_prob :: "real option"

definition with_labels :: "image_row \<Rightarrow> string option \<Rightarrow> real option \<Rightarrow> prediction_row" where
  "with_labels row p q =
     \<lparr>road_name = road_name row, lon = lon row, lat = lat row,
      road_length = road_length row, bearing = bearing row,
      google_streetview_image = google_streetview_image row,
      schoolsign_prediction = p, schoolsign_prediction_prob = q\<rparr>"

text \<open>
  \<open>gather_predictions(row, prediction_model)\<close>: \<open>classify\<close> is
  \<open>prediction_model.classifyImage(image, result_count=1)\<close>; the list \<open>calls\<close> records
  the images handed to it.
\<close>

definition gather_predictions ::
  "(string option \<Rightarrow> error + string list \<times> real list) \<Rightarrow> image_row \<Rightarrow> string option list \<Rightarrow>
   (error + prediction_row) \<times> string option list" where
  "gather_predictions classify row calls =
     (and_then (classify (google_streetview_image row)) (\<lambda>(predict, probability).
        and_then (item predict 0) (\<lambda>p.
        and_then (item probability 0) (\<lambda>q. Inr (with_labels row (Some p) (Some q))))),
      calls @ [google_streetview_image row])"

text \<open>
  The lambda of the \<open>apply\<close>:
  \<open>gather_predictions(x, prediction_model) if x["google_streetview_image"] != None else x\<close>.
\<close>

definition predict_cell ::
  "(string option \<Rightarrow> error + string list \<times> real list) \<Rightarrow> image_row \<Rightarrow> string option list \<Rightarrow>
   (error + prediction_row) \<times> string option list" where
  "predict_cell classify x calls =
     (if google_streetview_image x \<noteq> None then gather_predictions classify x calls
      else (Inr (with_labels x None None), calls))"

fun apply_predictions ::
  "(string option \<Rightarrow> error + string list \<times> real list) \<Rightarrow> image_row list \<Rightarrow>
   string option list \<Rightarrow> (error + prediction_row list) \<times> string option list" where
  "apply_predictions classify [] calls = (Inr [], calls)"
| "apply_predictions classify (x # xs) calls =
     (case predict_cell classify x calls of
        (Inl e, c1) \<Rightarrow> (Inl e, c1)
      | (Inr y, c1) \<Rightarrow>
          (case apply_predictions classify xs c1 of
             (Inl e, c2) \<Rightarrow> (Inl e, c2)
           | (Inr ys, c2) \<Rightarrow> (Inr (y # ys), c2)))"

text \<open>\<open>df.dropna()\<close>: a row with a missing cell in any column is dropped.\<close>

definition has_na :: "prediction_row \<Rightarrow> bool" where
  "has_na r =
     (road_name r = NoTag \<or> google_streetview_image r = None
      \<or> schoolsign_prediction r = None \<or> schoolsign_prediction_prob r = None)"

definition dropna :: "prediction_row list \<Rightarrow> prediction_row list" where
  "dropna df = filter (\<lambda>r. \<not> has_na r) df"

text \<open>
  The stage: the \<open>apply\<close>, the look at the two prediction columns (which do not exist,
  a KeyError, when no row was classified), and the export of \<open>df.dropna()\<close>.
\<close>

definition predict_stage ::
  "(string option \<Rightarrow> error + string list \<times> real list) \<Rightarrow> image_row list \<Rightarrow>
   string option list \<Rightarrow> (error + prediction_row list) \<times> string option list" where
  "predict_stage classify df calls =
     (case apply_predictions classify df calls of
        (Inl e, c) \<Rightarrow> (Inl e, c)
      | (Inr out, c) \<Rightarrow>
          if list_all (\<lambda>x. google_streetview_image x = None) df then (Inl KeyError, c)
          else (Inr (dropna out), c))"

section \<open>Facts about the geometry\<close>

lemma seg_length_nonneg: "0 \<le> seg_length p q"
  by (simp add: seg_length_def)

lemma line_length_nonneg: "0 \<le> line_length ps"
  by (induction ps rule: line_length.induct) (simp_all add: seg_length_nonneg)

lemma densify_loop_nonempty:
  "line_geometry \<noteq> [] \<Longrightarrow>
   densify_loop line_geometry ds xy =
     Inr (xy @ map (\<lambda>d. interpolate_from (hd line_geometry) (tl line_geometry) d) ds)"
proof (induction ds arbitrary: xy)
  case Nil
  then show ?case by simp
next
  case (Cons d ds)
  obtain p ps where g: "line_geometry = p # ps"
    using Cons.prems by (cases line_geometry) auto
  obtain xp yp where pt: "interpolate_from p ps d = (xp, yp)"
    by (cases "interpolate_from p ps d")
  show ?case
    using Cons.IH [OF Cons.prems, of "xy @ [(xp, yp)]"] g pt
    by (simp add: interpolate_def)
qed

lemma densify_geometry_points:
  assumes "step \<noteq> 0"
  shows "densify_geometry line_geometry step None =
           Inr (map (\<lambda>k. interpolate_from (hd line_geometry) (tl line_geometry) (real k * step))
                  [0..<nat \<lceil>line_length line_geometry / step\<rceil>])"
proof (cases "line_geometry = []")
  case True
  then show ?thesis
    using assms by (simp add: densify_geometry_def arange_def)
next
  case False
  show ?thesis
    using assms densify_loop_nonempty [OF False, of _ "[]"]
    by (simp add: densify_geometry_def arange_def comp_def)
qed

lemma seg_length_dist: "seg_length p q = dist (cpt p) (cpt q)"
  by (simp add: seg_length_def cpt_def dist_complex_def cmod_def power2_commute)

lemma cpt_along: "cpt (along p q t) = cpt p + of_real t * (cpt q - cpt p)"
  by (simp add: cpt_def along_def complex_eq_iff)

lemma seg_length_along: "seg_length (along p q s) (along p q t) = \<bar>t - s\<bar> * seg_length p q"
proof -
  have "cpt (along p q s) - cpt (along p q t) = of_real (s - t) * (cpt q - cpt p)"
    by (simp add: cpt_along algebra_simps)
  then have "dist (cpt (along p q s)) (cpt (along p q t)) =
      norm (of_real (s - t) * (cpt q - cpt p))"
    by (simp only: dist_norm)
  also have "\<dots> = \<bar>s - t\<bar> * dist (cpt q) (cpt p)"
    by (simp only: norm_mult norm_of_real dist_norm real_norm_def)
  finally have "dist (cpt (along p q s)) (cpt (along p q t)) = \<bar>s - t\<bar> * dist (cpt q) (cpt p)" .
  then show ?thesis
    by (simp add: seg_length_dist dist_commute abs_minus_commute)
qed

lemma along_0: "along p q 0 = p"
  by (simp add: along_def)

lemma along_1: "along p q 1 = q"
  by (simp add: along_def)

lemma seg_length_triangle: "seg_length p r \<le> seg_length p q + seg_length q r"
  by (simp add: seg_length_dist dist_triangle)

lemma seg_length_same: "seg_length p p = 0"
  by (simp add: seg_length_def)

lemma interpolate_from_start: "d \<le> 0 \<Longrightarrow> interpolate_from p qs d = p"
  by (cases qs) simp_all

text \<open>
  Interpolation never moves faster than the arc length: two distances \<open>a \<le> b\<close> give
  points at most \<open>b - a\<close> apart.  The proof follows the walk over the segments and
  splits on where \<open>a\<close> and \<open>b\<close> fall with respect to the first one.
\<close>

lemma interpolate_from_lipschitz:
  "a \<le> b \<Longrightarrow> seg_length (interpolate_from p qs a) (interpolate_from p qs b) \<le> b - a"
proof (induction qs arbitrary: p a b)
  case Nil
  then show ?case by (simp add: seg_length_same)
next
  case (Cons q qs)
  define L where "L = seg_length p q"
  have tail: "seg_length q (interpolate_from q qs d) \<le> d" if "0 \<le> d" for d
    using Cons.IH [of 0 d q] that by (simp add: interpolate_from_start)
  consider (both_start) "b \<le> 0"
    | (start_in) "a \<le> 0" "0 < b" "b < L"
    | (start_past) "a \<le> 0" "0 < b" "L \<le> b"
    | (in_in) "0 < a" "b < L"
    | (in_past) "0 < a" "a < L" "L \<le> b"
    | (past_past) "0 < a" "L \<le> a"
    using Cons.prems by linarith
  then show ?case
  proof cases
    case both_start
    with Cons.prems show ?thesis by (simp add: seg_length_same)
  next
    case start_in
    have "seg_length p (along p q (b / L)) = \<bar>b / L - 0\<bar> * L"
      using seg_length_along [of p q 0 "b / L"] by (simp add: along_0 L_def)
    also have "\<dots> = b" using start_in by simp
    finally show ?thesis using start_in by (simp add: L_def)
  next
    case start_past
    have "seg_length p (interpolate_from q qs (b - L)) \<le> L + (b - L)"
      using seg_length_triangle [of p "interpolate_from q qs (b - L)" q]
        tail [of "b - L"] start_past
      by (simp add: L_def)
    then show ?thesis using start_past by (simp add: L_def)
  next
    case in_in
    have "seg_length (along p q (a / L)) (along p q (b / L)) = \<bar>b / L - a / L\<bar> * L"
      by (simp add: seg_length_along L_def)
    also have "\<dots> = b - a"
      using in_in Cons.prems by (simp add: diff_divide_distrib [symmetric])
    finally show ?thesis using in_in Cons.prems by (simp add: L_def)
  next
    case in_past
    have "seg_length (along p q (a / L)) q = \<bar>1 - a / L\<bar> * L"
      using seg_length_along [of p q "a / L" 1] by (simp add: along_1 L_def)
    also have "\<dots> = L - a"
      using in_past by (simp add: field_simps)
    finally have first: "seg_length (along p q (a / L)) q = L - a" .
    have "seg_length (along p q (a / L)) (interpolate_from q qs (b - L)) \<le> (L - a) + (b - L)"
      using seg_length_triangle [of "along p q (a / L)" "interpolate_from q qs (b - L)" q]
        tail [of "b - L"] in_past first by simp
    then show ?thesis using in_past by (simp add: L_def)
  next
    case past_past
    have "seg_length (interpolate_from q qs (a - L)) (interpolate_from q qs (b - L))
        \<le> (b - L) - (a - L)"
      using Cons.IH [of "a - L" "b - L" q] Cons.prems by simp
    then show ?thesis using past_past Cons.prems by (simp add: L_def)
  qed
qed

lemma crs_given_raises:
  "crs \<noteq> None \<Longrightarrow>
   densify_geometry line_geometry step crs = Inl (if step = 0 then ZeroDivisionError else NameError)"
proof (cases "line_geometry = []")
  case True
  assume "crs \<noteq> None"
  with True show ?thesis by (simp add: densify_geometry_def arange_def)
next
  case False
  assume "crs \<noteq> None"
  then show ?thesis
    using densify_loop_nonempty [OF False, of _ "[]"]
    by (simp add: densify_geometry_def arange_def)
qed

lemma densify_geometry_returns:
  assumes "densify_geometry line_geometry step crs = Inr xy"
  shows "crs = None" and "step \<noteq> 0"
proof -
  show "crs = None"
    using assms crs_given_raises [of crs line_geometry step]
    by (cases "crs = None") auto
  show "step \<noteq> 0"
    using assms by (auto simp: densify_geometry_def arange_def)
qed

section \<open>Claims about densify_geometry\<close>

text \<open>
  C1, as stated: the number of sample points is \<open>floor(length / s)\<close>.  The path from
  \<open>(0, 0)\<close> to \<open>(3, 0)\<close> has length 3; with step 2 the distances \<open>np.arange\<close> yields are
  0 and 2, so \<open>densify_geometry\<close> returns two points, while \<open>floor(3 / 2)\<close> is 1.
\<close>

theorem densify_geometry_floor_counterexample:
  "densify_geometry [(0, 0), (3, 0)] 2 None = Inr [(0, 0), (2, 0)]
   \<and> int (length [(0 :: real, 0 :: real), (2, 0)]) \<noteq> \<lfloor>line_length [(0, 0), (3, 0)] / 2\<rfloor>"
  by (simp add: densify_geometry_def arange_def interpolate_def seg_length_def along_def upt_rec)

text \<open>
  C1, amended: for every road path and step size \<open>s > 0\<close>, \<open>densify_geometry\<close> called
  with \<open>crs=None\<close> returns exactly \<open>ceil(length / s)\<close> sample points, the points
  interpolated at the arc-length distances \<open>0, s, 2s, ...\<close> below the length of the path.
\<close>

theorem densify_geometry_count:
  assumes "0 < s"
  shows "\<exists>pts. densify_geometry line_geometry s None = Inr pts
           \<and> int (length pts) = \<lceil>line_length line_geometry / s\<rceil>
           \<and> (\<forall>k < length pts. interpolate line_geometry (real k * s) = Inr (pts ! k))"
proof -
  let ?n = "nat \<lceil>line_length line_geometry / s\<rceil>"
  let ?pts = "map (\<lambda>k. interpolate_from (hd line_geometry) (tl line_geometry) (real k * s)) [0..<?n]"
  have ret: "densify_geometry line_geometry s None = Inr ?pts"
    using assms densify_geometry_points [of s line_geometry] by simp
  have "0 \<le> line_length line_geometry / s"
    using assms line_length_nonneg [of line_geometry] by simp
  then have count: "int (length ?pts) = \<lceil>line_length line_geometry / s\<rceil>"
    by simp
  have at: "interpolate line_geometry (real k * s) = Inr (?pts ! k)" if "k < length ?pts" for k
  proof (cases line_geometry)
    case Nil
    with that show ?thesis by simp
  next
    case (Cons p ps)
    with that show ?thesis by (simp add: interpolate_def)
  qed
  from ret count at show ?thesis by blast
qed

theorem densify_geometry_count_witness:
  "(0 :: real) < 2
   \<and> (\<exists>pts. densify_geometry [(0, 0), (3, 0)] 2 None = Inr pts
         \<and> int (length pts) = \<lceil>line_length [(0, 0), (3, 0)] / 2\<rceil>
         \<and> (\<forall>k < length pts. interpolate [(0, 0), (3, 0)] (real k * 2) = Inr (pts ! k)))"
  using densify_geometry_count [of 2 "[(0, 0), (3, 0)]"] by simp

text \<open>
  C9: for every path densified with step size \<open>s\<close>, each produced point lies within
  Euclidean distance \<open>s\<close> of its predecessor in the produced order.
\<close>

theorem densify_geometry_spacing:
  assumes "densify_geometry line_geometry s crs = Inr pts" and "Suc i < length pts"
  shows "seg_length (pts ! i) (pts ! Suc i) \<le> s"
proof -
  have crs: "crs = None" and s0: "s \<noteq> 0"
    using densify_geometry_returns [OF assms(1)] by simp_all
  let ?n = "nat \<lceil>line_length line_geometry / s\<rceil>"
  let ?f = "\<lambda>k. interpolate_from (hd line_geometry) (tl line_geometry) (real k * s)"
  have pts: "pts = map ?f [0..<?n]"
    using assms(1) densify_geometry_points [OF s0, of line_geometry] crs by simp
  have n: "Suc i < ?n"
    using assms(2) pts by simp
  have pos: "0 < s"
  proof (rule ccontr)
    assume "\<not> 0 < s"
    then have "s < 0" using s0 by simp
    then have "line_length line_geometry / s \<le> 0"
      using line_length_nonneg [of line_geometry] by (simp add: divide_le_0_iff)
    then have "?n = 0" by simp
    with n show False by simp
  qed
  have "seg_length (?f i) (?f (Suc i)) \<le> real (Suc i) * s - real i * s"
    using pos by (intro interpolate_from_lipschitz) simp
  also have "\<dots> = s" by (simp add: algebra_simps)
  finally show ?thesis using pts n by simp
qed

theorem densify_geometry_spacing_witness:
  "densify_geometry [(0, 0), (3, 0)] 2 None = Inr [(0, 0), (2, 0)]
   \<and> Suc 0 < length [(0 :: real, 0 :: real), (2, 0)]
   \<and> seg_length ([(0, 0), (2, 0)] ! 0) ([(0, 0), (2, 0)] ! Suc 0) \<le> 2"
proof -
  have ret: "densify_geometry [(0, 0), (3, 0)] 2 None = Inr [(0, 0), (2, 0)]"
    by (simp add: densify_geometry_def arange_def interpolate_def seg_length_def along_def upt_rec)
  have len: "Suc 0 < length [(0 :: real, 0 :: real), (2, 0)]"
    by simp
  show ?thesis
    using ret len densify_geometry_spacing [OF ret len] by simp
qed

text \<open>
  C10: every call of \<open>densify_geometry\<close> with a \<open>crs\<close> other than \<open>None\<close> fails before
  it returns (with the NameError of the unbound \<open>new_line\<close>, unless \<open>np.arange\<close> has
  already raised on a zero step); a list of coordinates is returned only when \<open>crs\<close> is
  \<open>None\<close>.
\<close>

theorem densify_geometry_crs:
  "(crs \<noteq> None \<longrightarrow>
      densify_geometry line_geometry s crs = Inl (if s = 0 then ZeroDivisionError else NameError))
   \<and> (densify_geometry line_geometry s crs = Inr xy \<longrightarrow> crs = None)"
  using crs_given_raises [of crs line_geometry s]
    densify_geometry_returns(1) [of line_geometry s crs xy]
  by blast

theorem densify_geometry_crs_witness:
  "Some (4326 :: nat) \<noteq> None
   \<and> densify_geometry [(0, 0), (3, 0)] 2 (Some 4326) = Inl NameError
   \<and> densify_geometry [(0, 0), (3, 0)] 2 None = Inr [(0, 0), (2, 0)]"
proof -
  have ret: "densify_geometry [(0, 0), (3, 0)] 2 None = Inr [(0, 0), (2, 0)]"
    by (simp add: densify_geometry_def arange_def interpolate_def seg_length_def along_def upt_rec)
  show ?thesis
    using ret densify_geometry_crs [of "Some 4326" "[(0, 0), (3, 0)]" 2 "[]"]
      densify_geometry_crs [of None "[(0, 0), (3, 0)]" 2 "[(0, 0), (2, 0)]"]
    by simp
qed

section \<open>Facts about the sampler\<close>

lemma and_then_Inr [simp]: "and_then (Inr v) f = f v"
  by (simp add: and_then_def)

lemma and_then_Inl [simp]: "and_then (Inl e) f = Inl e"
  by (simp add: and_then_def)

lemma bearings_loop_in_range:
  "1 < length dp \<Longrightarrow> \<forall>x \<in> set xs. x < length dp \<Longrightarrow>
   bearings_loop dp xs bs = Inr (bs @ map (bearing_of dp) xs)"
proof (induction xs arbitrary: bs)
  case Nil
  then show ?case by simp
next
  case (Cons x xs)
  then show ?case
    by (auto simp: item_def bearing_of_def)
qed

lemma densify_step_returns:
  "densify_geometry g 0.0002 None =
     Inr (map (\<lambda>k. interpolate_from (hd g) (tl g) (real k * 0.0002))
            [0..<nat \<lceil>line_length g / 0.0002\<rceil>])"
  using densify_geometry_points [of "0.0002" g] by simp

lemma gather_row_short:
  "geometry rrow = Some g \<Longrightarrow> densify_geometry g 0.0002 None = Inr dp \<Longrightarrow> length dp < 2 \<Longrightarrow>
   gather_row rrow st = Inr st"
  by (simp add: gather_row_def)

lemma gather_row_long:
  "geometry rrow = Some g \<Longrightarrow> densify_geometry g 0.0002 None = Inr dp \<Longrightarrow> 1 < length dp \<Longrightarrow>
   gather_row rrow st =
     Inr \<lparr>road_names = road_names st @ map (\<lambda>x. name rrow) dp,
          lons = lons st @ map fst dp,
          lats = lats st @ map snd dp,
          road_lengths = road_lengths st @ map (\<lambda>x. length_col rrow) dp,
          bearings = bearings st @ map (bearing_of dp) [0..<length dp]\<rparr>"
  by (simp add: gather_row_def bearings_loop_in_range)

lemma gather_row_total:
  assumes "geometry rrow \<noteq> None" "aligned st"
  shows "\<exists>st'. gather_row rrow st = Inr st' \<and> aligned st'"
proof -
  obtain g where g: "geometry rrow = Some g" using assms(1) by auto
  obtain dp where dp: "densify_geometry g 0.0002 None = Inr dp"
    using densify_step_returns [of g] by simp
  show ?thesis
  proof (cases "1 < length dp")
    case True
    show ?thesis
      using gather_row_long [OF g dp True, of st] assms(2) by (simp add: aligned_def)
  next
    case False
    then have "length dp < 2" by simp
    from gather_row_short [OF g dp this, of st] assms(2) show ?thesis by simp
  qed
qed

lemma gather_loop_total:
  "\<forall>r \<in> set rows. geometry r \<noteq> None \<Longrightarrow> aligned st \<Longrightarrow>
   \<exists>st'. gather_loop rows st = Inr st' \<and> aligned st'"
proof (induction rows arbitrary: st)
  case Nil
  then show ?case by simp
next
  case (Cons r rows)
  obtain st1 where 1: "gather_row r st = Inr st1" "aligned st1"
    using gather_row_total [of r st] Cons.prems by auto
  show ?case
    using Cons.IH [of st1] Cons.prems 1 by simp
qed

lemma gather_road_points_total: "\<exists>df. gather_road_points gdf = Inr df"
proof -
  have "\<forall>r \<in> set (filter retained gdf). geometry r \<noteq> None"
    by (simp add: retained_def)
  moreover have "aligned no_columns"
    by (simp add: aligned_def no_columns_def)
  ultimately obtain st where "gather_loop (filter retained gdf) no_columns = Inr st" "aligned st"
    using gather_loop_total by blast
  then show ?thesis
    by (simp add: gather_road_points_def from_dict_def aligned_def)
qed

lemma gather_loop_append:
  "gather_loop (xs @ ys) st = and_then (gather_loop xs st) (gather_loop ys)"
  by (induction xs arbitrary: st) (simp_all add: and_then_def split: sum.splits)

lemma gather_loop_skip:
  assumes "\<And>st. gather_row r st = Inr st"
  shows "gather_loop (xs @ r # ys) st = gather_loop (xs @ ys) st"
  using assms by (simp add: gather_loop_append and_then_def split: sum.splits)

lemma gather_road_points_not_retained:
  "\<not> retained r \<Longrightarrow> gather_road_points (xs @ r # ys) = gather_road_points (xs @ ys)"
  by (simp add: gather_road_points_def)

lemma gather_road_points_short:
  assumes "geometry r = Some g" "densify_geometry g 0.0002 None = Inr dp" "length dp < 2"
  shows "gather_road_points (xs @ r # ys) = gather_road_points (xs @ ys)"
proof (cases "retained r")
  case True
  have "gather_loop (filter retained xs @ r # filter retained ys) no_columns =
        gather_loop (filter retained xs @ filter retained ys) no_columns"
    by (rule gather_loop_skip) (rule gather_row_short [OF assms])
  with True show ?thesis by (simp add: gather_road_points_def)
next
  case False
  then show ?thesis by (rule gather_road_points_not_retained)
qed

lemma seg_length_horizontal: "seg_length (a, c) (b, c) = \<bar>b - a\<bar>"
  by (simp add: seg_length_def)

lemma sin_radians_pos: "0 < a \<Longrightarrow> a < 180 \<Longrightarrow> 0 < sin (radians a)"
  by (rule sin_gt_zero) (simp_all add: radians_def)

lemma get_bearing_towards_origin:
  assumes "0 < a" "a < 180"
  shows "get_bearing (a, c) (0, c) = 180"
proof -
  have "0 < sin (radians a)" using assms by (rule sin_radians_pos)
  then show ?thesis
    by (simp add: get_bearing_def Let_def radians_def atan2_def degrees_def float_mod_def)
qed

lemma get_bearing_from_origin:
  assumes "0 < a" "a < 180"
  shows "get_bearing (0, c) (a, c) = 0"
proof -
  have "0 < sin (radians a)" using assms by (rule sin_radians_pos)
  then show ?thesis
    by (simp add: get_bearing_def Let_def radians_def atan2_def degrees_def float_mod_def)
qed

lemma get_bearing_east:
  assumes "0 < a" "a < 180"
  shows "get_bearing (0, 0) (0, a) = 90"
proof -
  have "0 < sin (radians a)" using assms by (rule sin_radians_pos)
  then show ?thesis
    by (simp add: get_bearing_def Let_def radians_def atan2_def degrees_def float_mod_def)
qed

lemma get_bearing_west:
  assumes "0 < a" "a < 180"
  shows "get_bearing (0, a) (0, 0) = 270"
proof -
  have "0 < sin (radians a)" using assms by (rule sin_radians_pos)
  then show ?thesis
    by (simp add: get_bearing_def Let_def radians_def atan2_def degrees_def float_mod_def)
qed

section \<open>Claims about gather_road_points\<close>

text \<open>
  C2: the bearing of a point \<open>p\<^sub>i\<close> with \<open>i \<ge> 1\<close> is the forward azimuth from
  \<open>p\<^sub>i\<^sub>-\<^sub>1\<close> to \<open>p\<^sub>i\<close>, and the bearing of \<open>p\<^sub>0\<close> is the azimuth from \<open>p\<^sub>1\<close> to \<open>p\<^sub>0\<close>.
  The code does not compute these azimuths.  The densified points are
  (longitude, latitude) tuples and go unchanged into \<open>get_bearing\<close>, which reads
  (latitude, longitude); and from the second point on the current point is the origin.
  A road from \<open>(0, 0)\<close> to \<open>(0.0003, 0)\<close> heads east and is densified to \<open>(0, 0)\<close> and
  \<open>(0.0002, 0)\<close>: both points get the bearing 180, while the azimuth from the first to
  the second point is 90 and the one from the second to the first is 270 (0 and 180
  for the tuples as the code passes them).
\<close>

theorem gather_road_points_bearing_slip:
  "gather_road_points
     [\<lparr>geometry = Some [(0, 0), (0.0003, 0)], highway = Tag ''residential'',
       name = Tag ''Main Street'', length_col = 33\<rparr>]
     = Inr \<lparr>road_names = [Tag ''Main Street'', Tag ''Main Street''],
            lons = [0, 0.0002], lats = [0, 0], road_lengths = [33, 33],
            bearings = [180, 180]\<rparr>
   \<and> get_bearing (0, 0) (0, 0.0002) = 90
   \<and> get_bearing (0, 0.0002) (0, 0) = 270
   \<and> get_bearing (0, 0) (0.0002, 0) = 0
   \<and> get_bearing (0.0002, 0) (0, 0) = 180"
proof -
  have dp: "densify_geometry [(0, 0), (0.0003, 0)] 0.0002 None = Inr [(0, 0), (0.0002, 0)]"
    by (simp add: densify_geometry_def arange_def interpolate_def seg_length_horizontal
        along_def upt_rec)
  have bwd: "get_bearing (0.0002, 0) (0, 0) = 180"
    by (rule get_bearing_towards_origin) simp_all
  have fwd: "get_bearing (0, 0) (0.0002, 0) = 0"
    by (rule get_bearing_from_origin) simp_all
  have east: "get_bearing (0, 0) (0, 0.0002) = 90"
    by (rule get_bearing_east) simp_all
  have west: "get_bearing (0, 0.0002) (0, 0) = 270"
    by (rule get_bearing_west) simp_all
  show ?thesis
    using dp bwd fwd east west
    by (simp add: gather_road_points_def retained_def gather_row_def no_columns_def
        from_dict_def item_def upt_rec)
qed

text \<open>
  C6: a road row whose geometry is null or whose highway classification is \<open>service\<close>
  leaves no trace in the output of the sampler (the output is the one of the frame
  without that row), and the sampler returns a frame, not an error.
\<close>

theorem gather_road_points_excluded:
  assumes "geometry r = None \<or> highway r = Tag ''service''"
  shows "gather_road_points (xs @ r # ys) = gather_road_points (xs @ ys)
         \<and> (\<exists>df. gather_road_points (xs @ r # ys) = Inr df)"
proof -
  have "\<not> retained r" using assms by (auto simp: retained_def)
  then show ?thesis
    using gather_road_points_not_retained [of r xs ys] gather_road_points_total by simp
qed

theorem gather_road_points_excluded_witness:
  "gather_road_points
     [\<lparr>geometry = None, highway = Tag ''residential'', name = Tag ''A'', length_col = 50\<rparr>,
      \<lparr>geometry = Some [(0, 0), (1, 0)], highway = Tag ''service'', name = NoTag, length_col = 9\<rparr>]
     = Inr no_columns"
proof -
  let ?a = "\<lparr>geometry = None, highway = Tag ''residential'', name = Tag ''A'', length_col = 50\<rparr>"
  let ?b = "\<lparr>geometry = Some [(0, 0), (1, 0)], highway = Tag ''service'', name = NoTag,
             length_col = 9\<rparr>"
  have a: "geometry ?a = None \<or> highway ?a = Tag ''service''" by simp
  have b: "geometry ?b = None \<or> highway ?b = Tag ''service''" by simp
  have "gather_road_points [] = Inr no_columns"
    by (simp add: gather_road_points_def from_dict_def no_columns_def)
  then show ?thesis
    using gather_road_points_excluded [OF a, of "[]" "[?b]"]
      gather_road_points_excluded [OF b, of "[]" "[]"]
    by simp
qed

text \<open>
  C7: a road path whose densification has fewer than 2 points (a path of length zero
  has none) contributes no rows to the output of \<open>gather_road_points\<close>, and no error
  is raised.
\<close>

theorem gather_road_points_short_path:
  "(geometry r = Some g \<and> densify_geometry g 0.0002 None = Inr dp \<and> length dp < 2 \<longrightarrow>
      gather_road_points (xs @ r # ys) = gather_road_points (xs @ ys))
   \<and> (line_length g = 0 \<longrightarrow> densify_geometry g 0.0002 None = Inr [])
   \<and> (\<exists>df. gather_road_points (xs @ r # ys) = Inr df)"
proof -
  have zero: "densify_geometry g 0.0002 None = Inr []" if "line_length g = 0"
    using that densify_step_returns [of g] by simp
  show ?thesis
    using gather_road_points_short [of r g dp xs ys] zero gather_road_points_total by blast
qed

theorem gather_road_points_short_path_witness:
  "densify_geometry [(0, 0), (0.0001, 0)] 0.0002 None = Inr [(0, 0)]
   \<and> line_length [(1, 1), (1, 1)] = 0
   \<and> densify_geometry [(1, 1), (1, 1)] 0.0002 None = Inr []
   \<and> gather_road_points
       [\<lparr>geometry = Some [(0, 0), (0.0001, 0)], highway = Tag ''residential'',
         name = Tag ''A'', length_col = 11\<rparr>] = Inr no_columns"
proof -
  let ?r = "\<lparr>geometry = Some [(0, 0), (0.0001, 0)], highway = Tag ''residential'',
             name = Tag ''A'', length_col = 11\<rparr>"
  have dp: "densify_geometry [(0, 0), (0.0001, 0)] 0.0002 None = Inr [(0, 0)]"
    by (simp add: densify_geometry_def arange_def interpolate_def seg_length_horizontal
        along_def upt_rec)
  have zero: "line_length [(1, 1), (1, 1)] = 0"
    by (simp add: seg_length_horizontal)
  have empty: "gather_road_points [] = Inr no_columns"
    by (simp add: gather_road_points_def from_dict_def no_columns_def)
  show ?thesis
    using dp zero empty
      gather_road_points_short_path [of ?r "[(0, 0), (0.0001, 0)]" "[(0, 0)]" "[]" "[]"]
      gather_road_points_short_path [of ?r "[(1, 1), (1, 1)]" "[]" "[]" "[]"]
    by simp
qed

section \<open>Facts about the fetcher\<close>

lemma nat_digits_small: "n < 10 \<Longrightarrow> nat_digits n = [digit_char n]"
  by (simp add: nat_digits.simps)

lemma nat_digits_big:
  "\<not> n < 10 \<Longrightarrow> nat_digits n = nat_digits (n div 10) @ [digit_char (n mod 10)]"
  by (subst nat_digits.simps) simp

lemma frac_digits_numeral:
  "frac_digits (numeral k) x =
     (let d = nat \<lfloor>x * 10\<rfloor>; r = x * 10 - real d
      in digit_char d # (if r = 0 then [] else frac_digits (pred_numeral k) r))"
  by (simp add: numeral_eq_Suc)

lemmas decimal_str_eval =
  decimal_str_def nat_digits_small nat_digits_big frac_digits_numeral digit_char_def Let_def

lemma replace_comma_id: "CHR '','' \<notin> set s \<Longrightarrow> replace_comma s = s"
  by (induction s) (auto simp: replace_comma_def)

lemma replace_comma_location:
  assumes "CHR '','' \<notin> set a" and "CHR '','' \<notin> set b"
  shows "replace_comma (a @ '','' @ b) = a @ ''_'' @ b"
  using replace_comma_id [OF assms(1)] replace_comma_id [OF assms(2)]
  by (simp add: replace_comma_def)

lemma collect_single: "collect [r] = and_then r (\<lambda>v. Inr [v])"
  by (cases r) simp_all

text \<open>What the metadata lookup of one point returns, by the outcome of the request.\<close>

lemma gather_meta_cases:
  "gather_google_streetview_meta str_float lookup link la lo be creds =
     (let p = point_params str_float la lo be creds
      in case lookup p of
           Inl e \<Rightarrow> PdNA
         | Inr m \<Rightarrow>
             (case m ''status'' of
                None \<Rightarrow> PdNA
              | Some status \<Rightarrow>
                  if status = ''OK''
                  then Results \<lparr>params = [p], links = [link p], metadata = [m]\<rparr>
                  else PyNone))"
  by (simp add: gather_google_streetview_meta_def api_results_def collect_single item_def Let_def
      split: sum.splits option.splits)

lemma gather_meta_results:
  assumes "gather_google_streetview_meta str_float lookup link la lo be creds = Results res"
  shows "\<exists>m. params res = [point_params str_float la lo be creds]
           \<and> links res = [link (point_params str_float la lo be creds)]
           \<and> metadata res = [m] \<and> m ''status'' = Some ''OK''"
  using assms
  by (auto simp: gather_meta_cases Let_def split: sum.splits option.splits if_splits)

lemma download_ok:
  assumes "metadata res = m # ms" "m ''status'' = Some ''OK''"
    and "links res = url # us" "params res = p # ps"
  shows "download_google_streetview_image http_get (Results res) data_dir w =
     (if image_filepath p data_dir \<in> dom (files w)
      then (Inr (Some (image_filepath p data_dir)), w)
      else (case http_get url of
              Inl e \<Rightarrow> (Inl e, w\<lparr>requested := requested w @ [url]\<rparr>)
            | Inr img_data \<Rightarrow>
                (Inr (Some (image_filepath p data_dir)),
                 w\<lparr>files := (files w)(image_filepath p data_dir \<mapsto> img_data),
                   requested := requested w @ [url]\<rparr>)))"
  using assms by (simp add: download_google_streetview_image_def item_def Let_def)

lemma download_returns_path:
  assumes "download_google_streetview_image http_get cell data_dir w = (Inr (Some path), w1)"
  shows "\<exists>res m ms url us p ps. cell = Results res \<and> metadata res = m # ms
           \<and> m ''status'' = Some ''OK'' \<and> links res = url # us \<and> params res = p # ps
           \<and> path = image_filepath p data_dir \<and> path \<in> dom (files w1)"
proof (cases cell)
  case PyNone
  with assms show ?thesis by (simp add: download_google_streetview_image_def)
next
  case PdNA
  with assms show ?thesis by (simp add: download_google_streetview_image_def)
next
  case (Results res)
  from assms Results obtain m ms where m: "metadata res = m # ms"
    by (cases "metadata res") (auto simp: download_google_streetview_image_def item_def)
  from assms Results m have st: "m ''status'' = Some ''OK''"
    by (auto simp: download_google_streetview_image_def item_def split: option.splits if_splits)
  from assms Results m st obtain url us where u: "links res = url # us"
    by (cases "links res") (auto simp: download_google_streetview_image_def item_def)
  from assms Results m st u obtain p ps where p: "params res = p # ps"
    by (cases "params res") (auto simp: download_google_streetview_image_def item_def)
  have "path = image_filepath p data_dir \<and> path \<in> dom (files w1)"
    using assms unfolding Results download_ok [OF m st u p]
    by (auto split: if_splits sum.splits)
  with Results m st u p show ?thesis by blast
qed

text \<open>One row of the second pass, by the outcome of the lookup of the first pass.\<close>

lemma image_cell_row:
  "image_cell http_get (gather_google_streetview_meta str_float lookup link la lo be creds)
     data_dir w =
     (let p = point_params str_float la lo be creds; filepath = image_filepath p data_dir
      in case lookup p of
           Inl e \<Rightarrow> (Inl AttributeError, w)
         | Inr m \<Rightarrow>
             (case m ''status'' of
                None \<Rightarrow> (Inl AttributeError, w)
              | Some status \<Rightarrow>
                  if status \<noteq> ''OK'' then (Inr None, w)
                  else if filepath \<in> dom (files w) then (Inr (Some filepath), w)
                  else (case http_get (link p) of
                          Inl e \<Rightarrow> (Inl e, w\<lparr>requested := requested w @ [link p]\<rparr>)
                        | Inr img_data \<Rightarrow>
                            (Inr (Some filepath),
                             w\<lparr>files := (files w)(filepath \<mapsto> img_data),
                               requested := requested w @ [link p]\<rparr>))))"
  by (simp add: gather_meta_cases image_cell_def Let_def download_google_streetview_image_def
      item_def split: sum.splits option.splits)

text \<open>
  What one row of the second pass does to the disk and to the request log, and what
  it returns.
\<close>

lemma image_cell_step:
  assumes "image_cell http_get
             (gather_google_streetview_meta str_float lookup link la lo be creds) data_dir w
           = (r, w1)"
  defines "p \<equiv> point_params str_float la lo be creds"
  shows "\<forall>f \<in> dom (files w). files w1 f = files w f"
    and "requested w1 = requested w
         \<or> (requested w1 = requested w @ [link p] \<and> image_filepath p data_dir \<notin> dom (files w))"
    and "\<And>img. r = Inr img \<Longrightarrow>
           \<exists>m st. lookup p = Inr m \<and> m ''status'' = Some st
             \<and> img = (if st = ''OK'' then Some (image_filepath p data_dir) else None)"
  using assms(1) unfolding image_cell_row p_def
  by (auto simp: Let_def split: sum.splits option.splits if_splits)

lemma meta_column_Cons:
  "meta_column str_float lookup link creds (row # rows) =
     gather_google_streetview_meta str_float lookup link (lat row) (lon row) (bearing row) creds
       # meta_column str_float lookup link creds rows"
  by (simp add: meta_column_def)

text \<open>
  The second pass over any rows: files that exist are left as they are, every request
  belongs to a row whose file did not exist, and a returned cell is the path of the
  row when its lookup reported \<open>OK\<close> and \<open>None\<close> otherwise.
\<close>

lemma image_column_rows:
  assumes "image_column http_get (meta_column str_float lookup link creds rows) data_dir w
           = (res, w')"
  shows "(\<forall>f \<in> dom (files w). files w' f = files w f)
     \<and> (\<exists>new. requested w' = requested w @ new
           \<and> (\<forall>u \<in> set new. \<exists>row \<in> set rows. u = link (row_params str_float creds row)
                 \<and> image_filepath (row_params str_float creds row) data_dir \<notin> dom (files w)))
     \<and> (\<forall>imgs. res = Inr imgs \<longrightarrow> length imgs = length rows
           \<and> (\<forall>i < length rows. \<exists>m st.
                 lookup (row_params str_float creds (rows ! i)) = Inr m
                 \<and> m ''status'' = Some st
                 \<and> imgs ! i = (if st = ''OK''
                      then Some (image_filepath (row_params str_float creds (rows ! i)) data_dir)
                      else None)))"
  using assms
proof (induction rows arbitrary: w res w')
  case Nil
  then show ?case by (auto simp: meta_column_def)
next
  case (Cons row rows)
  let ?P = "row_params str_float creds"
  let ?F = "\<lambda>r. image_filepath (?P r) data_dir"
  let ?cell = "gather_google_streetview_meta str_float lookup link
                 (lat row) (lon row) (bearing row) creds"
  obtain r w1 where cell: "image_cell http_get ?cell data_dir w = (r, w1)"
    by (cases "image_cell http_get ?cell data_dir w")
  have P: "?P row = point_params str_float (lat row) (lon row) (bearing row) creds"
    by (simp add: row_params_def)
  note step = image_cell_step [OF cell, folded P]
  have keep1: "\<forall>f \<in> dom (files w). files w1 f = files w f"
    by (rule step(1))
  have req1: "requested w1 = requested w
      \<or> (requested w1 = requested w @ [link (?P row)] \<and> ?F row \<notin> dom (files w))"
    by (rule step(2))
  have new1: "\<exists>new. requested w1 = requested w @ new
      \<and> (\<forall>u \<in> set new. \<exists>x \<in> set (row # rows). u = link (?P x) \<and> ?F x \<notin> dom (files w))"
  proof -
    from req1 show ?thesis
    proof
      assume "requested w1 = requested w"
      then have "requested w1 = requested w @ []" by simp
      then show ?thesis by (intro exI [of _ "[]"]) simp
    next
      assume a: "requested w1 = requested w @ [link (?P row)] \<and> ?F row \<notin> dom (files w)"
      then show ?thesis by (intro exI [of _ "[link (?P row)]"]) simp
    qed
  qed
  show ?case
  proof (cases r)
    case (Inl e)
    with Cons.prems cell have "res = Inl e" "w' = w1"
      by (simp_all add: meta_column_Cons)
    with keep1 new1 show ?thesis by simp
  next
    case (Inr img)
    obtain res2 w2 where rest:
      "image_column http_get (meta_column str_float lookup link creds rows) data_dir w1
         = (res2, w2)"
      by (cases "image_column http_get (meta_column str_float lookup link creds rows) data_dir w1")
    note ih = Cons.IH [OF rest]
    have w': "w' = w2"
      using Cons.prems cell Inr rest
      by (auto simp: meta_column_Cons split: sum.splits)
    have res: "res = (case res2 of Inl e \<Rightarrow> Inl e | Inr imgs \<Rightarrow> Inr (img # imgs))"
      using Cons.prems cell Inr rest
      by (auto simp: meta_column_Cons split: sum.splits)
    have sub: "f \<in> dom (files w1)" if "f \<in> dom (files w)" for f
      using keep1 that by (auto simp: dom_def)
    have keep: "\<forall>f \<in> dom (files w). files w' f = files w f"
    proof
      fix f assume f: "f \<in> dom (files w)"
      then have "files w2 f = files w1 f" using ih sub by blast
      with keep1 f show "files w' f = files w f" by (simp add: w')
    qed
    from new1 obtain n1 where n1: "requested w1 = requested w @ n1"
      "\<forall>u \<in> set n1. \<exists>x \<in> set (row # rows). u = link (?P x) \<and> ?F x \<notin> dom (files w)"
      by blast
    from ih obtain n2 where n2: "requested w2 = requested w1 @ n2"
      "\<forall>u \<in> set n2. \<exists>x \<in> set rows. u = link (?P x) \<and> ?F x \<notin> dom (files w1)"
      by blast
    have n2': "\<forall>u \<in> set n2. \<exists>x \<in> set (row # rows). u = link (?P x) \<and> ?F x \<notin> dom (files w)"
    proof
      fix u assume "u \<in> set n2"
      with n2(2) obtain x where x: "x \<in> set rows" "u = link (?P x)" "?F x \<notin> dom (files w1)"
        by blast
      from x(3) sub have "?F x \<notin> dom (files w)" by blast
      with x show "\<exists>x \<in> set (row # rows). u = link (?P x) \<and> ?F x \<notin> dom (files w)"
        by auto
    qed
    have new: "\<exists>new. requested w' = requested w @ new
      \<and> (\<forall>u \<in> set new. \<exists>x \<in> set (row # rows). u = link (?P x) \<and> ?F x \<notin> dom (files w))"
      using n1 n2(1) n2' by (intro exI [of _ "n1 @ n2"]) (auto simp: w')
    have cells: "length imgs = length (row # rows)
        \<and> (\<forall>i < length (row # rows). \<exists>m st.
              lookup (?P ((row # rows) ! i)) = Inr m \<and> m ''status'' = Some st
              \<and> imgs ! i = (if st = ''OK'' then Some (?F ((row # rows) ! i)) else None))"
      if "res = Inr imgs" for imgs
    proof -
      from that res obtain imgs2 where i2: "res2 = Inr imgs2" "imgs = img # imgs2"
        by (cases res2) auto
      from ih i2(1) have len: "length imgs2 = length rows"
        and tl: "\<forall>i < length rows. \<exists>m st.
              lookup (?P (rows ! i)) = Inr m \<and> m ''status'' = Some st
              \<and> imgs2 ! i = (if st = ''OK'' then Some (?F (rows ! i)) else None)"
        by blast+
      from step(3) [OF Inr] obtain m st where hd:
        "lookup (?P row) = Inr m" "m ''status'' = Some st"
        "img = (if st = ''OK'' then Some (?F row) else None)"
        by blast
      have "\<exists>m st. lookup (?P ((row # rows) ! i)) = Inr m \<and> m ''status'' = Some st
              \<and> imgs ! i = (if st = ''OK'' then Some (?F ((row # rows) ! i)) else None)"
        if "i < length (row # rows)" for i
      proof (cases i)
        case 0
        with hd i2(2) show ?thesis by simp
      next
        case (Suc j)
        with that have "j < length rows" by simp
        with tl obtain m' st' where
          "lookup (?P (rows ! j)) = Inr m'" "m' ''status'' = Some st'"
          "imgs2 ! j = (if st' = ''OK'' then Some (?F (rows ! j)) else None)"
          by blast
        then show ?thesis
          unfolding Suc i2(2) by (intro exI [of _ m'] exI [of _ st']) simp
      qed
      with len i2(2) show ?thesis by simp
    qed
    from keep new cells show ?thesis by blast
  qed
qed

text \<open>A row whose file is on disk leaves the disk and the request log as they are.\<close>

lemma image_cell_existing:
  assumes "image_filepath (point_params str_float la lo be creds) data_dir \<in> dom (files w)"
  shows "snd (image_cell http_get
                (gather_google_streetview_meta str_float lookup link la lo be creds) data_dir w)
         = w"
  using assms unfolding image_cell_row
  by (simp add: Let_def split: sum.splits option.splits)

lemma image_column_existing:
  "\<forall>row \<in> set rows. image_filepath (row_params str_float creds row) data_dir \<in> dom (files w)
   \<Longrightarrow> snd (image_column http_get (meta_column str_float lookup link creds rows) data_dir w) = w"
proof (induction rows)
  case Nil
  then show ?case by (simp add: meta_column_def)
next
  case (Cons row rows)
  let ?cell = "gather_google_streetview_meta str_float lookup link
                 (lat row) (lon row) (bearing row) creds"
  have "image_filepath (point_params str_float (lat row) (lon row) (bearing row) creds) data_dir
          \<in> dom (files w)"
    using Cons.prems by (simp add: row_params_def)
  then have one: "snd (image_cell http_get ?cell data_dir w) = w"
    by (rule image_cell_existing)
  have rest: "snd (image_column http_get (meta_column str_float lookup link creds rows) data_dir w)
      = w"
    using Cons by simp
  show ?case
    using one rest
    by (cases "image_cell http_get ?cell data_dir w";
        cases "image_column http_get (meta_column str_float lookup link creds rows) data_dir w")
       (auto simp: meta_column_Cons split: sum.splits)
qed

section \<open>Claims about the street imagery fetcher\<close>

text \<open>
  C3: a row whose metadata lookup raises, or reports a status other than \<open>OK\<close>, should
  pass the fetch stage without an image and without an error.  The code does so for a
  status other than \<open>OK\<close> (the cell is \<open>None\<close> and the second pass returns \<open>None\<close>), but
  not for a lookup that raises: the \<open>except\<close> returns \<open>pd.NA\<close>, which is not \<open>None\<close>, so
  the second pass hands it to \<open>download_google_streetview_image\<close>, whose first
  attribute read raises.  Both runs of the stage, on one row:
\<close>

theorem fetch_stage_lookup_exception:
  "fetch_stage decimal_str (\<lambda>p. Inl RequestError) (\<lambda>p. ''link'') (\<lambda>url. Inr ''jpeg'')
     ''k'' ''data''
     [\<lparr>road_name = Tag ''A'', lon = - 87.25, lat = 41.5, road_length = 200, bearing = 90\<rparr>]
     \<lparr>files = Map.empty, requested = []\<rparr>
   = (Inl AttributeError, \<lparr>files = Map.empty, requested = []\<rparr>)
   \<and> fetch_stage decimal_str (\<lambda>p. Inr [''status'' \<mapsto> ''ZERO_RESULTS'']) (\<lambda>p. ''link'')
       (\<lambda>url. Inr ''jpeg'') ''k'' ''data''
       [\<lparr>road_name = Tag ''A'', lon = - 87.25, lat = 41.5, road_length = 200, bearing = 90\<rparr>]
       \<lparr>files = Map.empty, requested = []\<rparr>
     = (Inr [None], \<lparr>files = Map.empty, requested = []\<rparr>)"
  by (simp add: fetch_stage_def meta_column_def gather_meta_cases image_cell_def
      download_google_streetview_image_def)

text \<open>
  C4, as stated: the file name is derived from the rounded latitude and longitude.  For
  the point at latitude 41.87997266666667 and longitude -87.67906933333333 the code
  writes every digit of both into the name; the coordinates rounded to six decimal
  places print as 41.879973 and -87.679069, which are not the parts of that name.
\<close>

theorem streetview_filename_counterexample:
  "fst (download_google_streetview_image (\<lambda>url. Inr ''jpeg'')
          (gather_google_streetview_meta decimal_str (\<lambda>p. Inr [''status'' \<mapsto> ''OK''])
             (\<lambda>p. ''link'') 41.87997266666667 (- 87.67906933333333) 0.037247 ''k'')
          ''data'' \<lparr>files = Map.empty, requested = []\<rparr>)
     = Inr (Some ''data/41.87997266666667_-87.67906933333333_0.037247.jpg'')
   \<and> decimal_str (spec_rounded 6 41.87997266666667) = ''41.879973''
   \<and> decimal_str (spec_rounded 6 (- 87.67906933333333)) = ''-87.679069''"
proof -
  have la: "decimal_str 41.87997266666667 = ''41.87997266666667''"
    by (simp add: decimal_str_eval)
  have lo: "decimal_str (- 87.67906933333333) = ''-87.67906933333333''"
    by (simp add: decimal_str_eval)
  have be: "decimal_str 0.037247 = ''0.037247''"
    by (simp add: decimal_str_eval)
  have r1: "spec_rounded 6 41.87997266666667 = 41.879973"
    by (simp add: spec_rounded_def round_def)
  have r2: "spec_rounded 6 (- 87.67906933333333) = - 87.679069"
    by (simp add: spec_rounded_def round_def)
  have s1: "decimal_str 41.879973 = ''41.879973''"
    by (simp add: decimal_str_eval)
  have s2: "decimal_str (- 87.679069) = ''-87.679069''"
    by (simp add: decimal_str_eval)
  have "fst (download_google_streetview_image (\<lambda>url. Inr ''jpeg'')
          (gather_google_streetview_meta decimal_str (\<lambda>p. Inr [''status'' \<mapsto> ''OK''])
             (\<lambda>p. ''link'') 41.87997266666667 (- 87.67906933333333) 0.037247 ''k'')
          ''data'' \<lparr>files = Map.empty, requested = []\<rparr>)
     = Inr (Some ''data/41.87997266666667_-87.67906933333333_0.037247.jpg'')"
    unfolding gather_meta_cases point_params_def la lo be
    by (simp add: download_google_streetview_image_def item_def image_filepath_def
        replace_comma_def Let_def)
  then show ?thesis
    unfolding r1 r2 s1 s2 by simp
qed

text \<open>
  C4, amended: for every successful imagery result the persisted file name is derived
  deterministically from the latitude, the longitude and the heading as Python formats
  the floats, with no rounding step of the stage: \<open><data_dir>/<lat>_<lon>_<heading>.jpg\<close>,
  where \<open><lat>,<lon>\<close> is the location string with its commas replaced by \<open>_\<close>.  The
  statement holds for whatever Python prints for a float (\<open>str_float\<close>).
\<close>

theorem streetview_filename:
  assumes "gather_google_streetview_meta str_float lookup link la lo be creds = Results res"
    and "download_google_streetview_image http_get (Results res) data_dir w
           = (Inr (Some path), w1)"
  shows "path = data_dir @ ''/'' @ replace_comma (str_float la @ '','' @ str_float lo)
                  @ ''_'' @ str_float be @ ''.jpg''
         \<and> (CHR '','' \<notin> set (str_float la) \<and> CHR '','' \<notin> set (str_float lo) \<longrightarrow>
              path = data_dir @ ''/'' @ str_float la @ ''_'' @ str_float lo @ ''_''
                       @ str_float be @ ''.jpg'')"
proof -
  from gather_meta_results [OF assms(1)]
  have p: "params res = [point_params str_float la lo be creds]"
    by blast
  from download_returns_path [OF assms(2)] p
  have "path = image_filepath (point_params str_float la lo be creds) data_dir"
    by auto
  then have path: "path = data_dir @ ''/'' @ replace_comma (str_float la @ '','' @ str_float lo)
                  @ ''_'' @ str_float be @ ''.jpg''"
    by (simp add: image_filepath_def point_params_def)
  have "path = data_dir @ ''/'' @ str_float la @ ''_'' @ str_float lo @ ''_''
                       @ str_float be @ ''.jpg''"
    if "CHR '','' \<notin> set (str_float la) \<and> CHR '','' \<notin> set (str_float lo)"
    using that path replace_comma_location [of "str_float la" "str_float lo"] by simp
  with path show ?thesis by blast
qed

theorem streetview_filename_witness:
  "gather_google_streetview_meta decimal_str (\<lambda>p. Inr [''status'' \<mapsto> ''OK'']) (\<lambda>p. ''link'')
       41.5 (- 87.25) 90 ''k''
     = Results \<lparr>params = [\<lparr>size_px = ''640x640'', location = ''41.5,-87.25'',
                            heading = ''90.0'', key = ''k''\<rparr>],
                 links = [''link''], metadata = [[''status'' \<mapsto> ''OK'']]\<rparr>
   \<and> download_google_streetview_image (\<lambda>url. Inr ''jpeg'')
         (Results \<lparr>params = [\<lparr>size_px = ''640x640'', location = ''41.5,-87.25'',
                              heading = ''90.0'', key = ''k''\<rparr>],
                   links = [''link''], metadata = [[''status'' \<mapsto> ''OK'']]\<rparr>)
         ''data'' \<lparr>files = Map.empty, requested = []\<rparr>
     = (Inr (Some ''data/41.5_-87.25_90.0.jpg''),
        \<lparr>files = [''data/41.5_-87.25_90.0.jpg'' \<mapsto> ''jpeg''], requested = [''link'']\<rparr>)
   \<and> CHR '','' \<notin> set (decimal_str 41.5) \<and> CHR '','' \<notin> set (decimal_str (- 87.25))
   \<and> ''data/41.5_-87.25_90.0.jpg''
       = ''data'' @ ''/'' @ decimal_str 41.5 @ ''_'' @ decimal_str (- 87.25) @ ''_''
           @ decimal_str 90 @ ''.jpg''"
proof -
  have la: "decimal_str 41.5 = ''41.5''" by (simp add: decimal_str_eval)
  have lo: "decimal_str (- 87.25) = ''-87.25''" by (simp add: decimal_str_eval)
  have be: "decimal_str 90 = ''90.0''" by (simp add: decimal_str_eval)
  have meta: "gather_google_streetview_meta decimal_str (\<lambda>p. Inr [''status'' \<mapsto> ''OK''])
       (\<lambda>p. ''link'') 41.5 (- 87.25) 90 ''k''
     = Results \<lparr>params = [\<lparr>size_px = ''640x640'', location = ''41.5,-87.25'',
                            heading = ''90.0'', key = ''k''\<rparr>],
                 links = [''link''], metadata = [[''status'' \<mapsto> ''OK'']]\<rparr>"
    unfolding gather_meta_cases point_params_def la lo be by simp
  have dl: "download_google_streetview_image (\<lambda>url. Inr ''jpeg'')
         (Results \<lparr>params = [\<lparr>size_px = ''640x640'', location = ''41.5,-87.25'',
                              heading = ''90.0'', key = ''k''\<rparr>],
                   links = [''link''], metadata = [[''status'' \<mapsto> ''OK'']]\<rparr>)
         ''data'' \<lparr>files = Map.empty, requested = []\<rparr>
     = (Inr (Some ''data/41.5_-87.25_90.0.jpg''),
        \<lparr>files = [''data/41.5_-87.25_90.0.jpg'' \<mapsto> ''jpeg''], requested = [''link'']\<rparr>)"
    by (simp add: download_google_streetview_image_def item_def image_filepath_def
        replace_comma_def Let_def)
  have nc: "CHR '','' \<notin> set (decimal_str 41.5) \<and> CHR '','' \<notin> set (decimal_str (- 87.25))"
    unfolding la lo by simp
  from streetview_filename [OF meta dl] nc
  have "''data/41.5_-87.25_90.0.jpg''
       = ''data'' @ ''/'' @ decimal_str 41.5 @ ''_'' @ decimal_str (- 87.25) @ ''_''
           @ decimal_str 90 @ ''.jpg''"
    by blast
  with meta dl nc show ?thesis by blast
qed

text \<open>
  C5, as stated: when the image file of a point is on disk, a re-run of the fetch stage
  downloads nothing for it and returns the same path as the first run.  The stage looks
  the metadata up again before it looks at the disk: a first run stores the image and
  returns its path; a re-run in which the lookup reports \<open>OVER_QUERY_LIMIT\<close> downloads
  nothing, but returns \<open>None\<close> for the point, although the file is on disk.
\<close>

theorem fetch_stage_rerun_counterexample:
  "fetch_stage decimal_str (\<lambda>p. Inr [''status'' \<mapsto> ''OK'']) (\<lambda>p. ''link'')
       (\<lambda>url. Inr ''jpeg'') ''k'' ''data''
       [\<lparr>road_name = Tag ''A'', lon = - 87.25, lat = 41.5, road_length = 200, bearing = 90\<rparr>]
       \<lparr>files = Map.empty, requested = []\<rparr>
     = (Inr [Some ''data/41.5_-87.25_90.0.jpg''],
        \<lparr>files = [''data/41.5_-87.25_90.0.jpg'' \<mapsto> ''jpeg''], requested = [''link'']\<rparr>)
   \<and> fetch_stage decimal_str (\<lambda>p. Inr [''status'' \<mapsto> ''OVER_QUERY_LIMIT'']) (\<lambda>p. ''link'')
       (\<lambda>url. Inr ''jpeg'') ''k'' ''data''
       [\<lparr>road_name = Tag ''A'', lon = - 87.25, lat = 41.5, road_length = 200, bearing = 90\<rparr>]
       \<lparr>files = [''data/41.5_-87.25_90.0.jpg'' \<mapsto> ''jpeg''], requested = [''link'']\<rparr>
     = (Inr [None],
        \<lparr>files = [''data/41.5_-87.25_90.0.jpg'' \<mapsto> ''jpeg''], requested = [''link'']\<rparr>)"
proof -
  have la: "decimal_str (83 / 2) = ''41.5''" by (simp add: decimal_str_eval)
  have lo: "decimal_str (- (349 / 4)) = ''-87.25''" by (simp add: decimal_str_eval)
  have be: "decimal_str 90 = ''90.0''" by (simp add: decimal_str_eval)
  show ?thesis
    by (simp add: fetch_stage_def meta_column_def image_cell_row point_params_def la lo be
        image_filepath_def replace_comma_def Let_def)
qed

text \<open>
  C5, amended: in every run of the fetch stage, a file that is on disk is left as it
  is, and every image request belongs to a row whose file was not on disk: for a point
  whose image file exists under its derived file name the stage downloads nothing (when
  the files of all rows exist, the run leaves the disk and the request log unchanged).
  The path the stage returns for a point is the derived path of the point, the same
  in every run, whenever the lookup of that run reports the status \<open>OK\<close>; it returns no
  path for the point when the lookup reports another status.
\<close>

theorem fetch_stage_existing_files:
  assumes "fetch_stage str_float lookup link http_get creds data_dir df w = (res, w')"
  shows "(\<forall>f \<in> dom (files w). files w' f = files w f)
     \<and> (\<exists>new. requested w' = requested w @ new
           \<and> (\<forall>u \<in> set new. \<exists>row \<in> set (take 100 df).
                 u = link (row_params str_float creds row)
                 \<and> image_filepath (row_params str_float creds row) data_dir \<notin> dom (files w)))
     \<and> ((\<forall>row \<in> set (take 100 df).
            image_filepath (row_params str_float creds row) data_dir \<in> dom (files w))
          \<longrightarrow> w' = w)
     \<and> (\<forall>imgs. res = Inr imgs \<longrightarrow> length imgs = length (take 100 df)
           \<and> (\<forall>i < length (take 100 df). \<exists>m st.
                 lookup (row_params str_float creds (take 100 df ! i)) = Inr m
                 \<and> m ''status'' = Some st
                 \<and> imgs ! i = (if st = ''OK''
                      then Some (image_filepath (row_params str_float creds (take 100 df ! i))
                                   data_dir)
                      else None)))"
proof -
  have run: "image_column http_get (meta_column str_float lookup link creds (take 100 df))
               data_dir w = (res, w')"
    using assms by (simp add: fetch_stage_def)
  note rows = image_column_rows [OF run]
  have same: "w' = w"
    if "\<forall>row \<in> set (take 100 df).
          image_filepath (row_params str_float creds row) data_dir \<in> dom (files w)"
    using image_column_existing [OF that, of http_get lookup link] run by simp
  from rows same show ?thesis by blast
qed

theorem fetch_stage_existing_files_witness:
  "fetch_stage decimal_str (\<lambda>p. Inr [''status'' \<mapsto> ''OK'']) (\<lambda>p. ''link'')
       (\<lambda>url. Inl RequestError) ''k'' ''data''
       [\<lparr>road_name = Tag ''A'', lon = - 87.25, lat = 41.5, road_length = 200, bearing = 90\<rparr>]
       \<lparr>files = [''data/41.5_-87.25_90.0.jpg'' \<mapsto> ''jpeg''], requested = [''link'']\<rparr>
     = (Inr [Some ''data/41.5_-87.25_90.0.jpg''],
        \<lparr>files = [''data/41.5_-87.25_90.0.jpg'' \<mapsto> ''jpeg''], requested = [''link'']\<rparr>)
   \<and> image_filepath (row_params decimal_str ''k''
         \<lparr>road_name = Tag ''A'', lon = - 87.25, lat = 41.5, road_length = 200, bearing = 90\<rparr>)
         ''data''
       \<in> dom (files \<lparr>files = [''data/41.5_-87.25_90.0.jpg'' \<mapsto> ''jpeg''],
                      requested = [''link'']\<rparr>)
   \<and> (\<exists>m st. (\<lambda>p. Inr [''status'' \<mapsto> ''OK''] :: error + (string \<rightharpoonup> string))
                (row_params decimal_str ''k''
                   \<lparr>road_name = Tag ''A'', lon = - 87.25, lat = 41.5, road_length = 200,
                    bearing = 90\<rparr>) = Inr m
         \<and> m ''status'' = Some st
         \<and> [Some ''data/41.5_-87.25_90.0.jpg''] ! 0
             = (if st = ''OK''
                then Some (image_filepath (row_params decimal_str ''k''
                       \<lparr>road_name = Tag ''A'', lon = - 87.25, lat = 41.5, road_length = 200,
                        bearing = 90\<rparr>) ''data'')
                else None))"
proof -
  let ?row = "\<lparr>road_name = Tag ''A'', lon = - 87.25, lat = 41.5, road_length = 200,
               bearing = 90\<rparr>"
  let ?w = "\<lparr>files = [''data/41.5_-87.25_90.0.jpg'' \<mapsto> ''jpeg''], requested = [''link'']\<rparr>"
  let ?lookup = "\<lambda>p :: param_dict. Inr [''status'' \<mapsto> ''OK''] :: error + (string \<rightharpoonup> string)"
  have la: "decimal_str (83 / 2) = ''41.5''" by (simp add: decimal_str_eval)
  have lo: "decimal_str (- (349 / 4)) = ''-87.25''" by (simp add: decimal_str_eval)
  have be: "decimal_str 90 = ''90.0''" by (simp add: decimal_str_eval)
  have path: "image_filepath (row_params decimal_str ''k'' ?row) ''data''
      = ''data/41.5_-87.25_90.0.jpg''"
    by (simp add: row_params_def point_params_def la lo be image_filepath_def
        replace_comma_def Let_def)
  have there: "image_filepath (row_params decimal_str ''k'' ?row) ''data'' \<in> dom (files ?w)"
    unfolding path by simp
  obtain res w' where run:
    "fetch_stage decimal_str ?lookup (\<lambda>p. ''link'') (\<lambda>url. Inl RequestError) ''k'' ''data''
       [?row] ?w = (res, w')"
    by (cases "fetch_stage decimal_str ?lookup (\<lambda>p. ''link'') (\<lambda>url. Inl RequestError)
       ''k'' ''data'' [?row] ?w")
  note stage = fetch_stage_existing_files [OF run]
  have all: "\<forall>row \<in> set (take 100 [?row]).
      image_filepath (row_params decimal_str ''k'' row) ''data'' \<in> dom (files ?w)"
    using there by simp
  from stage all have w': "w' = ?w" by blast
  have res: "res = Inr [Some ''data/41.5_-87.25_90.0.jpg'']"
    using run
    by (simp add: fetch_stage_def meta_column_def image_cell_row point_params_def la lo be
        image_filepath_def replace_comma_def Let_def)
  from stage res have "\<forall>i < length (take 100 [?row]). \<exists>m st.
        ?lookup (row_params decimal_str ''k'' (take 100 [?row] ! i)) = Inr m
        \<and> m ''status'' = Some st
        \<and> [Some ''data/41.5_-87.25_90.0.jpg''] ! i
            = (if st = ''OK''
               then Some (image_filepath (row_params decimal_str ''k'' (take 100 [?row] ! i))
                            ''data'')
               else None)"
    by blast
  then have cell: "\<exists>m st. ?lookup (row_params decimal_str ''k'' ?row) = Inr m
        \<and> m ''status'' = Some st
        \<and> [Some ''data/41.5_-87.25_90.0.jpg''] ! 0
            = (if st = ''OK''
               then Some (image_filepath (row_params decimal_str ''k'' ?row) ''data'')
               else None)"
    by simp
  from run res w' there cell show ?thesis
    by (intro conjI) simp_all
qed

section \<open>Facts about the classifier\<close>

lemma predict_cell_no_image:
  "google_streetview_image x = None \<Longrightarrow>
   predict_cell classify x calls = (Inr (with_labels x None None), calls)"
  by (simp add: predict_cell_def)

lemma predict_cell_calls:
  "snd (predict_cell classify x calls) =
     calls @ filter (\<lambda>i. i \<noteq> None) [google_streetview_image x]"
  by (simp add: predict_cell_def gather_predictions_def)

lemma predict_cell_row:
  assumes "predict_cell classify x calls = (Inr y, c)"
  shows "y = with_labels x (schoolsign_prediction y) (schoolsign_prediction_prob y)"
proof (cases "google_streetview_image x = None")
  case True
  with assms have "y = with_labels x None None" by (simp add: predict_cell_def)
  then show ?thesis by (simp add: with_labels_def)
next
  case False
  with assms obtain p q where "y = with_labels x (Some p) (Some q)"
    by (auto simp: predict_cell_def gather_predictions_def and_then_def
        split: sum.splits prod.splits)
  then show ?thesis by (simp add: with_labels_def)
qed

lemma apply_predictions_result:
  "apply_predictions classify df calls = (Inr out, c) \<Longrightarrow>
   c = calls @ filter (\<lambda>i. i \<noteq> None) (map google_streetview_image df)
   \<and> (\<forall>r \<in> set out. \<exists>x \<in> set df.
          r = with_labels x (schoolsign_prediction r) (schoolsign_prediction_prob r))"
proof (induction df arbitrary: calls out c)
  case Nil
  then show ?case by simp
next
  case (Cons x xs)
  from Cons.prems obtain y c1 ys where
    cell: "predict_cell classify x calls = (Inr y, c1)"
    and tail: "apply_predictions classify xs c1 = (Inr ys, c)"
    and out: "out = y # ys"
    by (auto split: prod.splits sum.splits)
  have c1: "c1 = calls @ filter (\<lambda>i. i \<noteq> None) [google_streetview_image x]"
    using predict_cell_calls [of classify x calls] cell by simp
  note ih = Cons.IH [OF tail]
  have "c = calls @ filter (\<lambda>i. i \<noteq> None) (map google_streetview_image (x # xs))"
    using ih c1 by simp
  moreover have "\<forall>r \<in> set out. \<exists>x' \<in> set (x # xs).
      r = with_labels x' (schoolsign_prediction r) (schoolsign_prediction_prob r)"
    using ih predict_cell_row [OF cell] out by auto
  ultimately show ?case by blast
qed

lemma with_labels_image:
  "google_streetview_image (with_labels x p q) = google_streetview_image x"
  by (simp add: with_labels_def)

section \<open>Claims about the signage classifier\<close>

text \<open>
  C8: the classifier is called on a row exactly when the row carries an image
  reference; a row without one is returned as it is, with no prediction labels; and
  every row of the export is a row of the input that carries an image, with its two
  labels.
\<close>

theorem predict_stage_image_gate:
  "(google_streetview_image x = None \<longrightarrow>
      predict_cell classify x calls = (Inr (with_labels x None None), calls))
   \<and> (google_streetview_image x \<noteq> None \<longrightarrow>
        snd (predict_cell classify x calls) = calls @ [google_streetview_image x])
   \<and> (predict_stage classify df calls = (Inr exported, c) \<longrightarrow>
        c = calls @ filter (\<lambda>i. i \<noteq> None) (map google_streetview_image df)
        \<and> (\<forall>r \<in> set exported. \<exists>x' \<in> set df. google_streetview_image x' \<noteq> None
              \<and> r = with_labels x' (schoolsign_prediction r) (schoolsign_prediction_prob r)))"
proof (intro conjI impI)
  assume "google_streetview_image x = None"
  then show "predict_cell classify x calls = (Inr (with_labels x None None), calls)"
    by (rule predict_cell_no_image)
next
  assume "google_streetview_image x \<noteq> None"
  then show "snd (predict_cell classify x calls) = calls @ [google_streetview_image x]"
    by (simp add: predict_cell_calls)
next
  assume st: "predict_stage classify df calls = (Inr exported, c)"
  then obtain out where ap: "apply_predictions classify df calls = (Inr out, c)"
    and ex: "exported = dropna out"
    by (auto simp: predict_stage_def split: prod.splits sum.splits if_splits)
  note res = apply_predictions_result [OF ap]
  from res show "c = calls @ filter (\<lambda>i. i \<noteq> None) (map google_streetview_image df)"
    by blast
  show "\<forall>r \<in> set exported. \<exists>x' \<in> set df. google_streetview_image x' \<noteq> None
          \<and> r = with_labels x' (schoolsign_prediction r) (schoolsign_prediction_prob r)"
  proof
    fix r
    assume r: "r \<in> set exported"
    then have "r \<in> set out" and na: "\<not> has_na r"
      by (simp_all add: ex dropna_def)
    with res obtain x' where x': "x' \<in> set df"
      "r = with_labels x' (schoolsign_prediction r) (schoolsign_prediction_prob r)"
      by blast
    have "google_streetview_image r \<noteq> None"
      using na by (simp add: has_na_def)
    then have "google_streetview_image x' \<noteq> None"
      using with_labels_image [of x' "schoolsign_prediction r" "schoolsign_prediction_prob r"] x'(2)
      by simp
    with x' show "\<exists>x' \<in> set df. google_streetview_image x' \<noteq> None
          \<and> r = with_labels x' (schoolsign_prediction r) (schoolsign_prediction_prob r)"
      by blast
  qed
qed

theorem predict_stage_image_gate_witness:
  "predict_cell (\<lambda>i. Inr ([''schoolsign''], [100]))
       \<lparr>road_name = Tag ''B'', lon = 2, lat = 3, road_length = 50, bearing = 180,
        google_streetview_image = None\<rparr> []
     = (Inr \<lparr>road_name = Tag ''B'', lon = 2, lat = 3, road_length = 50, bearing = 180,
             google_streetview_image = None, schoolsign_prediction = None,
             schoolsign_prediction_prob = None\<rparr>, [])
   \<and> snd (predict_cell (\<lambda>i. Inr ([''schoolsign''], [100]))
       \<lparr>road_name = Tag ''A'', lon = 1, lat = 2, road_length = 50, bearing = 90,
        google_streetview_image = Some ''a.jpg''\<rparr> []) = [Some ''a.jpg'']
   \<and> predict_stage (\<lambda>i. Inr ([''schoolsign''], [100]))
       [\<lparr>road_name = Tag ''A'', lon = 1, lat = 2, road_length = 50, bearing = 90,
         google_streetview_image = Some ''a.jpg''\<rparr>,
        \<lparr>road_name = Tag ''B'', lon = 2, lat = 3, road_length = 50, bearing = 180,
         google_streetview_image = None\<rparr>] []
     = (Inr [\<lparr>road_name = Tag ''A'', lon = 1, lat = 2, road_length = 50, bearing = 90,
              google_streetview_image = Some ''a.jpg'',
              schoolsign_prediction = Some ''schoolsign'',
              schoolsign_prediction_prob = Some 100\<rparr>], [Some ''a.jpg''])"
proof -
  let ?a = "\<lparr>road_name = Tag ''A'', lon = 1, lat = 2, road_length = 50, bearing = 90,
         google_streetview_image = Some ''a.jpg''\<rparr>"
  let ?b = "\<lparr>road_name = Tag ''B'', lon = 2, lat = 3, road_length = 50, bearing = 180,
         google_streetview_image = None\<rparr>"
  let ?classify = "\<lambda>i :: string option. Inr ([''schoolsign''], [100 :: real])
                     :: error + string list \<times> real list"
  let ?out = "[\<lparr>road_name = Tag ''A'', lon = 1, lat = 2, road_length = 50, bearing = 90,
              google_streetview_image = Some ''a.jpg'',
              schoolsign_prediction = Some ''schoolsign'',
              schoolsign_prediction_prob = Some 100\<rparr>]"
  have stage: "predict_stage ?classify [?a, ?b] [] = (Inr ?out, [Some ''a.jpg''])"
    by (simp add: predict_stage_def predict_cell_def gather_predictions_def item_def
        with_labels_def dropna_def has_na_def)
  have b: "google_streetview_image ?b = None" by simp
  have a: "google_streetview_image ?a \<noteq> None" by simp
  show ?thesis
    using stage a b
      predict_stage_image_gate [of ?b ?classify "[]" "[?a, ?b]" ?out "[Some ''a.jpg'']"]
      predict_stage_image_gate [of ?a ?classify "[]" "[?a, ?b]" ?out "[Some ''a.jpg'']"]
    by (simp add: with_labels_def)
qed

end
